theory Spec2Isabelle
  imports Complex_Main "HOL-Library.AList" "HOL-Library.Extended_Nat"
begin

section \<open>Bus-factor analysis of Backup Boss\<close>

text \<open>
  The scoring code is the \<open>POST\<close> handler of the route
  \<open>/api/v1/analysis/bus-factor\<close> (the last listing of \<open>src/unnamed/part_006\<close>,
  lines 829 to 1062).  The file \<open>src/app/api/v1/analysis/bus-factor/route.ts\<close> holds the
  \<open>GET\<close> handler of the same route.  Both are embedded below.

  Numbers: \<open>coverage\<close> is a JavaScript double obtained as \<open>covered / total\<close> from two
  array lengths and compared with the literals \<open>0.5\<close> and \<open>0.8\<close>.  It is modelled as the
  exact rational.  IEEE division is correctly rounded and monotone, \<open>0.5\<close> is a double and
  the literal \<open>0.8\<close> is the double nearest to \<open>4/5\<close>, so for every \<open>total\<close> below
  \<open>2^50\<close> the two comparisons on doubles agree with the comparisons of the rationals with
  \<open>1/2\<close> and \<open>4/5\<close>.
\<close>

subsection \<open>Data model\<close>

text \<open>\<open>categoryEnum\<close> and \<open>riskLevelEnum\<close> (lines 785 to 789).\<close>

datatype Category = Operations | Finance | Client_management | Vendor_relations

datatype RiskLevel = Low | High | Critical

text \<open>The string each enum value is at run time.\<close>

fun category_key :: "Category \<Rightarrow> string" where
  "category_key Operations = ''operations''"
| "category_key Finance = ''finance''"
| "category_key Client_management = ''client_management''"
| "category_key Vendor_relations = ''vendor_relations''"

fun risk_key :: "RiskLevel \<Rightarrow> string" where
  "risk_key Low = ''low''"
| "risk_key High = ''high''"
| "risk_key Critical = ''critical''"

text \<open>The interfaces of lines 791 to 810; \<open>competencies\<close> may be null in a row
  (\<open>user.competencies || []\<close>).\<close>

record Runbook =
  rb_id :: string
  category :: Category
  title :: string

record User =
  user_id :: string
  competencies :: "string list option"

record CompletedTask =
  runbook_id :: string
  assignee_id :: string

record KnowledgeFragment =
  kf_category :: Category
  kf_user_id :: string

text \<open>An entry of \<open>scores\<close> and an entry of \<open>criticalGaps\<close> (lines 958 to 969); the
  field \<open>function\<close> is called \<open>gap_function\<close> here.\<close>

record Score =
  coverage :: rat
  riskLevel :: RiskLevel

record Gap =
  gap_function :: string
  singlePointOfFailure :: string
  recommendedAction :: string

text \<open>
  A JavaScript \<open>Set\<close> is the list of its elements in insertion order, without
  repetition; \<open>Map<string, Set<string>>\<close> is a partial map to such lists.
\<close>

type_synonym training = "string \<rightharpoonup> string list"

definition set_add :: "'a \<Rightarrow> 'a list \<Rightarrow> 'a list" where
  "set_add x s = (if x \<in> set s then s else s @ [x])"

text \<open>\<open>runbookTraining.get(k)?.add(v)\<close>: nothing happens when the key is absent.\<close>

definition training_add :: "string \<Rightarrow> string \<Rightarrow> training \<Rightarrow> training" where
  "training_add k v m = (case m k of None \<Rightarrow> m | Some s \<Rightarrow> m(k \<mapsto> set_add v s))"

text \<open>\<open>x || []\<close> on a value that is an array or undefined.\<close>

definition or_empty :: "'a list option \<Rightarrow> 'a list" where
  "or_empty x = (case x of None \<Rightarrow> [] | Some l \<Rightarrow> l)"

subsection \<open>Grouping the runbooks (lines 884 to 888)\<close>

definition runbooksByCategory :: "Runbook list \<Rightarrow> (Category \<rightharpoonup> Runbook list)" where
  "runbooksByCategory runbooks =
     fold (\<lambda>rb acc.
        let acc1 = (if acc (category rb) = None then acc(category rb \<mapsto> []) else acc)
        in (case acc1 (category rb) of
              None \<Rightarrow> acc1
            | Some l \<Rightarrow> acc1(category rb \<mapsto> l @ [rb])))
       runbooks Map.empty"

subsection \<open>Assembling the verification evidence (lines 920 to 955)\<close>

definition training_init :: "Runbook list \<Rightarrow> training" where
  "training_init runbooks = fold (\<lambda>rb m. m(rb_id rb \<mapsto> [])) runbooks Map.empty"

definition competency_pass :: "User list \<Rightarrow> Runbook list \<Rightarrow> training \<Rightarrow> training" where
  "competency_pass users runbooks =
     fold (\<lambda>user.
        let comps = or_empty (competencies user)
        in fold (\<lambda>rb m.
             if category_key (category rb) \<in> set comps \<or> ''all'' \<in> set comps
             then training_add (rb_id rb) (user_id user) m else m) runbooks) users"

definition task_pass :: "CompletedTask list \<Rightarrow> training \<Rightarrow> training" where
  "task_pass completedTasks =
     fold (\<lambda>task m.
        if m (runbook_id task) \<noteq> None
        then training_add (runbook_id task) (assignee_id task) m else m) completedTasks"

definition userCategoryKnowledge :: "KnowledgeFragment list \<Rightarrow> (string \<rightharpoonup> Category list)" where
  "userCategoryKnowledge knowledgeFragments =
     fold (\<lambda>kf k.
        let k1 = (if k (kf_user_id kf) = None then k(kf_user_id kf \<mapsto> []) else k)
        in (case k1 (kf_user_id kf) of
              None \<Rightarrow> k1
            | Some s \<Rightarrow> k1(kf_user_id kf \<mapsto> set_add (kf_category kf) s)))
       knowledgeFragments Map.empty"

definition fragment_pass ::
  "(string \<rightharpoonup> Category list) \<Rightarrow> Runbook list \<Rightarrow> User list \<Rightarrow> training \<Rightarrow> training" where
  "fragment_pass ukk runbooks users =
     fold (\<lambda>rb.
        fold (\<lambda>user m.
          if (case ukk (user_id user) of None \<Rightarrow> False | Some s \<Rightarrow> category rb \<in> set s)
          then training_add (rb_id rb) (user_id user) m else m) users) runbooks"

definition runbookTraining ::
  "Runbook list \<Rightarrow> User list \<Rightarrow> CompletedTask list \<Rightarrow> KnowledgeFragment list \<Rightarrow> training" where
  "runbookTraining runbooks users completedTasks knowledgeFragments =
     fragment_pass (userCategoryKnowledge knowledgeFragments) runbooks users
       (task_pass completedTasks
         (competency_pass users runbooks (training_init runbooks)))"

subsection \<open>The scoring loop (lines 957 to 1034)\<close>

definition categories :: "Category list" where
  "categories = [Operations, Finance, Client_management, Vendor_relations]"

text \<open>
  The three variables the loop writes.  \<open>scores\<close> is a JavaScript object: its keys keep
  their insertion order and an assignment to a present key replaces the value in place, which
  is what \<open>AList.update\<close> does on an association list.  \<open>globalMinTrained\<close> starts at
  \<open>Infinity\<close>.
\<close>

record EngineState =
  scores :: "(Category \<times> Score) list"
  criticalGaps :: "Gap list"
  globalMinTrained :: enat

definition initial_state :: EngineState where
  "initial_state =
     \<lparr>scores = [(Operations, \<lparr>coverage = 0, riskLevel = Critical\<rparr>),
                (Finance, \<lparr>coverage = 0, riskLevel = Critical\<rparr>),
                (Client_management, \<lparr>coverage = 0, riskLevel = Critical\<rparr>),
                (Vendor_relations, \<lparr>coverage = 0, riskLevel = Critical\<rparr>)],
      criticalGaps = [],
      globalMinTrained = \<infinity>\<rparr>"

text \<open>\<open>trainedUsers?.size || 0\<close>.\<close>

definition trainedCount :: "training \<Rightarrow> Runbook \<Rightarrow> nat" where
  "trainedCount tr rb = (case tr (rb_id rb) of None \<Rightarrow> 0 | Some s \<Rightarrow> length s)"

text \<open>\<open>Array.from(trainedUsers || [])[0]\<close> inside a template literal: element 0, and the
  text \<open>undefined\<close> when there is none.\<close>

definition first_user :: "training \<Rightarrow> Runbook \<Rightarrow> string" where
  "first_user tr rb =
     (case tr (rb_id rb) of Some (u # _) \<Rightarrow> u | _ \<Rightarrow> ''undefined'')"

text \<open>The object pushed for a runbook with fewer than two trained users (lines 999 to
  1013), whose \<open>function\<close> is the template literal of line 1008, and the object pushed
  for a category without runbooks (lines 979 to 983).\<close>

definition gap_label :: "Category \<Rightarrow> string \<Rightarrow> string" where
  "gap_label cat t = category_key cat @ '': '' @ t"

definition procedure_gap :: "training \<Rightarrow> Category \<Rightarrow> Runbook \<Rightarrow> Gap" where
  "procedure_gap tr cat rb =
     \<lparr>gap_function = gap_label cat (title rb),
      singlePointOfFailure =
        (if trainedCount tr rb = 1
         then ''Single employee ('' @ first_user tr rb @ '') has verified competency''
         else ''No employees have verified competency''),
      recommendedAction =
        (if trainedCount tr rb = 1
         then ''Cross-train additional employee immediately''
         else ''Assign and verify training for at least two employees'')\<rparr>"

definition empty_category_gap :: "Category \<Rightarrow> Gap" where
  "empty_category_gap cat =
     \<lparr>gap_function = category_key cat,
      singlePointOfFailure = ''No documented procedures exist for this function'',
      recommendedAction = ''Create emergency runbooks immediately''\<rparr>"

text \<open>The body of \<open>catRunbooks.forEach\<close> (lines 990 to 1019), on the counter
  \<open>covered\<close> and the three outer variables.\<close>

definition runbook_step ::
  "training \<Rightarrow> Category \<Rightarrow> Runbook \<Rightarrow> nat \<times> EngineState \<Rightarrow> nat \<times> EngineState" where
  "runbook_step tr cat rb = (\<lambda>(covered, st).
     let n = trainedCount tr rb;
         covered1 = (if 2 \<le> n then covered + 1 else covered);
         st1 = (if n < 2
                then st\<lparr>criticalGaps := criticalGaps st @ [procedure_gap tr cat rb]\<rparr>
                else st);
         st2 = (if enat n < globalMinTrained st1
                then st1\<lparr>globalMinTrained := enat n\<rparr> else st1)
     in (covered1, st2))"

text \<open>\<open>runbooksByCategory[cat] || []\<close> (line 974).\<close>

definition catRunbooks :: "Runbook list \<Rightarrow> Category \<Rightarrow> Runbook list" where
  "catRunbooks runbooks cat = or_empty (runbooksByCategory runbooks cat)"

text \<open>The body of \<open>categories.forEach\<close> (lines 973 to 1027).\<close>

definition category_step ::
  "Runbook list \<Rightarrow> training \<Rightarrow> Category \<Rightarrow> EngineState \<Rightarrow> EngineState" where
  "category_step runbooks tr cat st =
     (let total = length (catRunbooks runbooks cat)
      in if total = 0
         then st\<lparr>scores := AList.update cat \<lparr>coverage = 0, riskLevel = Critical\<rparr> (scores st),
                 criticalGaps := criticalGaps st @ [empty_category_gap cat],
                 globalMinTrained := 0\<rparr>
         else
           (case fold (runbook_step tr cat) (catRunbooks runbooks cat) (0, st) of
              (covered, st1) \<Rightarrow>
                let cov = (if 0 < total then of_nat covered / of_nat total else 0);
                    risk = (if cov < 1 / 2 then Critical
                            else if cov < 4 / 5 then High else Low)
                in st1\<lparr>scores := AList.update cat \<lparr>coverage = cov, riskLevel = risk\<rparr> (scores st1)\<rparr>))"

text \<open>What the handler stores and returns besides \<open>analysisId\<close>; \<open>busFactor\<close> is
  computed at lines 1029 to 1034.\<close>

record Analysis =
  an_scores :: "(Category \<times> Score) list"
  an_criticalGaps :: "Gap list"
  an_busFactor :: nat

definition computeBusFactor :: "Runbook list \<Rightarrow> training \<Rightarrow> Analysis" where
  "computeBusFactor runbooks tr =
     (let st = fold (category_step runbooks tr) categories initial_state;
          busFactor = (if globalMinTrained st = \<infinity> \<or> globalMinTrained st = 0 then 0
                       else the_enat (globalMinTrained st))
      in \<lparr>an_scores = scores st, an_criticalGaps = criticalGaps st, an_busFactor = busFactor\<rparr>)"

subsection \<open>The responses\<close>

datatype json = JString string | JNumber rat | JArray "json list" | JObject "(string \<times> json) list"

definition score_json :: "Score \<Rightarrow> json" where
  "score_json s =
     JObject [(''coverage'', JNumber (coverage s)), (''riskLevel'', JString (risk_key (riskLevel s)))]"

definition scores_json :: "(Category \<times> Score) list \<Rightarrow> json" where
  "scores_json sc = JObject (map (\<lambda>(c, s). (category_key c, score_json s)) sc)"

definition gap_json :: "Gap \<Rightarrow> json" where
  "gap_json g =
     JObject [(''function'', JString (gap_function g)),
              (''singlePointOfFailure'', JString (singlePointOfFailure g)),
              (''recommendedAction'', JString (recommendedAction g))]"

text \<open>
  The \<open>POST\<close> handler on the path that computes: the caller is authorised and either
  \<open>recalculate\<close> is set or no analysis of the last 24 hours is stored.  The four query
  results and the identifier drawn by \<open>uuidv4()\<close> are its inputs.  The listing stops
  at line 1062, before the final \<open>return\<close>; the returned object is the one of the same
  handler's earlier listing (lines 662 to 667), whose four keys are also those of the stored
  analysis returned at lines 866 to 871.
\<close>

definition POST ::
  "string \<Rightarrow> Runbook list \<Rightarrow> User list \<Rightarrow> CompletedTask list \<Rightarrow> KnowledgeFragment list \<Rightarrow> json" where
  "POST analysisId runbooks users completedTasks knowledgeFragments =
     (let a = computeBusFactor runbooks
                (runbookTraining runbooks users completedTasks knowledgeFragments)
      in JObject [(''analysisId'', JString analysisId),
                  (''scores'', scores_json (an_scores a)),
                  (''criticalGaps'', JArray (map gap_json (an_criticalGaps a))),
                  (''busFactor'', JNumber (of_nat (an_busFactor a)))])"

text \<open>
  The \<open>GET\<close> handler of \<open>route.ts\<close> on a request that passes the schema:
  \<open>random\<close> is the value of \<open>Math.random()\<close> (at least 0, below 1) and \<open>now\<close>
  the text of \<open>new Date().toISOString()\<close>.
\<close>

definition GET_busFactor :: "rat \<Rightarrow> int" where
  "GET_busFactor random = \<lfloor>random * 3\<rfloor> + 1"

definition GET_riskLevel :: "int \<Rightarrow> string" where
  "GET_riskLevel busFactor =
     (if busFactor \<le> 1 then ''critical'' else if busFactor \<le> 2 then ''high'' else ''medium'')"

definition GET :: "string \<Rightarrow> rat \<Rightarrow> string \<Rightarrow> json" where
  "GET orgId random now =
     (let busFactor = GET_busFactor random;
          riskLevel = GET_riskLevel busFactor
      in JObject [(''orgId'', JString orgId),
                  (''busFactor'', JNumber (of_int busFactor)),
                  (''riskLevel'', JString riskLevel),
                  (''criticalPersons'', JArray []),
                  (''recommendations'',
                     JArray [JString ''Document knowledge held by single-person dependencies'',
                             JString ''Cross-train team members on critical processes'',
                             JString ''Create runbooks for all high-risk procedures'']),
                  (''calculatedAt'', JString now)])"

text \<open>Reading a key of a JSON object.\<close>

definition json_keys :: "json \<Rightarrow> string list" where
  "json_keys j = (case j of JObject kvs \<Rightarrow> map fst kvs | _ \<Rightarrow> [])"

definition json_get :: "json \<Rightarrow> string \<Rightarrow> json option" where
  "json_get j k = (case j of JObject kvs \<Rightarrow> map_of kvs k | _ \<Rightarrow> None)"

subsection \<open>Closed forms used in the proofs\<close>

text \<open>What one pass of \<open>categories.forEach\<close> writes for a category: its score, the
  gaps it appends, and the running minimum it leaves.\<close>

definition covered_count :: "Runbook list \<Rightarrow> training \<Rightarrow> Category \<Rightarrow> nat" where
  "covered_count runbooks tr cat =
     length (filter (\<lambda>rb. 2 \<le> trainedCount tr rb) (catRunbooks runbooks cat))"

definition risk_of :: "rat \<Rightarrow> RiskLevel" where
  "risk_of cov = (if cov < 1 / 2 then Critical else if cov < 4 / 5 then High else Low)"

definition cat_score :: "Runbook list \<Rightarrow> training \<Rightarrow> Category \<Rightarrow> Score" where
  "cat_score runbooks tr cat =
     (if catRunbooks runbooks cat = [] then \<lparr>coverage = 0, riskLevel = Critical\<rparr>
      else \<lparr>coverage = of_nat (covered_count runbooks tr cat)
                         / of_nat (length (catRunbooks runbooks cat)),
            riskLevel = risk_of (of_nat (covered_count runbooks tr cat)
                         / of_nat (length (catRunbooks runbooks cat)))\<rparr>)"

definition cat_gaps :: "Runbook list \<Rightarrow> training \<Rightarrow> Category \<Rightarrow> Gap list" where
  "cat_gaps runbooks tr cat =
     (if catRunbooks runbooks cat = [] then [empty_category_gap cat]
      else map (procedure_gap tr cat)
             (filter (\<lambda>rb. trainedCount tr rb < 2) (catRunbooks runbooks cat)))"

definition cat_min :: "Runbook list \<Rightarrow> training \<Rightarrow> Category \<Rightarrow> enat \<Rightarrow> enat" where
  "cat_min runbooks tr cat m =
     (if catRunbooks runbooks cat = [] then 0
      else fold (\<lambda>rb m. min m (enat (trainedCount tr rb))) (catRunbooks runbooks cat) m)"

text \<open>A gap entry of a runbook of category \<open>cat\<close>: its \<open>function\<close> text begins
  with the category and the separator of line 1008.\<close>

definition gap_of_category :: "Category \<Rightarrow> Gap \<Rightarrow> bool" where
  "gap_of_category cat g \<longleftrightarrow>
     take (length (category_key cat @ '': '')) (gap_function g) = category_key cat @ '': ''"

text \<open>The condition of line 929 on a user and a runbook.\<close>

definition comp_ok :: "User \<Rightarrow> Runbook \<Rightarrow> bool" where
  "comp_ok user rb \<longleftrightarrow>
     category_key (category rb) \<in> set (or_empty (competencies user))
     \<or> ''all'' \<in> set (or_empty (competencies user))"

text \<open>An evidence map that keeps every key of another and only adds users, and an evidence
  map whose sets have no repetition.\<close>

definition grows :: "training \<Rightarrow> training \<Rightarrow> bool" where
  "grows m m' \<longleftrightarrow> (\<forall>k s. m k = Some s \<longrightarrow> (\<exists>s'. m' k = Some s' \<and> set s \<subseteq> set s'))"

definition all_distinct :: "training \<Rightarrow> bool" where
  "all_distinct m \<longleftrightarrow> (\<forall>k s. m k = Some s \<longrightarrow> distinct s)"

text \<open>The order of the risk levels, from worst to best.\<close>

fun risk_rank :: "RiskLevel \<Rightarrow> nat" where
  "risk_rank Critical = 0"
| "risk_rank High = 1"
| "risk_rank Low = 2"

text \<open>Two evidence maps that hold the same sets, possibly inserted in another order.\<close>

definition same_sets :: "training \<Rightarrow> training \<Rightarrow> bool" where
  "same_sets tr tr' \<longleftrightarrow>
     (\<forall>k. map_option set (tr k) = map_option set (tr' k)
          \<and> distinct (or_empty (tr k)) \<and> distinct (or_empty (tr' k)))"

subsection \<open>Sample data\<close>

text \<open>A shop with four operations runbooks trained by 3, 1, 2 and 0 people, and one fully
  staffed runbook in each other category.\<close>

definition shop_runbooks :: "Runbook list" where
  "shop_runbooks =
     [\<lparr>rb_id = ''rb-1'', category = Operations, title = ''Open the shop''\<rparr>,
      \<lparr>rb_id = ''rb-2'', category = Operations, title = ''Lockout and tagout''\<rparr>,
      \<lparr>rb_id = ''rb-3'', category = Finance, title = ''Run payroll''\<rparr>,
      \<lparr>rb_id = ''rb-4'', category = Operations, title = ''Emergency shutdown''\<rparr>,
      \<lparr>rb_id = ''rb-5'', category = Operations, title = ''Forklift inspection''\<rparr>,
      \<lparr>rb_id = ''rb-6'', category = Client_management, title = ''Quote a job''\<rparr>,
      \<lparr>rb_id = ''rb-7'', category = Vendor_relations, title = ''Reorder steel''\<rparr>]"

definition shop_training :: training where
  "shop_training =
     [''rb-1'' \<mapsto> [''ann'', ''bob'', ''cy''],
      ''rb-2'' \<mapsto> [''ann''],
      ''rb-3'' \<mapsto> [''ann'', ''bob''],
      ''rb-4'' \<mapsto> [''ann'', ''bob''],
      ''rb-5'' \<mapsto> [],
      ''rb-6'' \<mapsto> [''bob'', ''cy''],
      ''rb-7'' \<mapsto> [''ann'', ''cy'']]"

text \<open>The same shop with every runbook trained by at least two people:
  counts 3, 2, 4, 2, 2, 3, 2.\<close>

definition staffed_training :: training where
  "staffed_training =
     [''rb-1'' \<mapsto> [''ann'', ''bob'', ''cy''],
      ''rb-2'' \<mapsto> [''ann'', ''dee''],
      ''rb-3'' \<mapsto> [''ann'', ''bob'', ''cy'', ''dee''],
      ''rb-4'' \<mapsto> [''ann'', ''bob''],
      ''rb-5'' \<mapsto> [''cy'', ''dee''],
      ''rb-6'' \<mapsto> [''bob'', ''cy'', ''dee''],
      ''rb-7'' \<mapsto> [''ann'', ''cy'']]"

text \<open>An organisation whose only runbook is a finance one trained by five people.\<close>

definition ledger_runbooks :: "Runbook list" where
  "ledger_runbooks = [\<lparr>rb_id = ''rb-9'', category = Finance, title = ''Close the month''\<rparr>]"

definition ledger_training :: training where
  "ledger_training = [''rb-9'' \<mapsto> [''ann'', ''bob'', ''cy'', ''dee'', ''eli'']]"

text \<open>Three operations runbooks that share one title, trained by 2, 0 and 1 people.\<close>

definition twin_runbooks :: "Runbook list" where
  "twin_runbooks =
     [\<lparr>rb_id = ''rb-a'', category = Operations, title = ''Close up''\<rparr>,
      \<lparr>rb_id = ''rb-b'', category = Operations, title = ''Close up''\<rparr>,
      \<lparr>rb_id = ''rb-c'', category = Operations, title = ''Close up''\<rparr>]"

definition twin_training :: training where
  "twin_training = [''rb-a'' \<mapsto> [''ann'', ''bob''], ''rb-b'' \<mapsto> [], ''rb-c'' \<mapsto> [''cy'']]"

text \<open>The people of the shop: one declares the tag \<open>all\<close>, one declares finance, one
  has no competency list; one completed task and one knowledge fragment.\<close>

definition crew :: "User list" where
  "crew = [\<lparr>user_id = ''ann'', competencies = Some [''all'']\<rparr>,
           \<lparr>user_id = ''bob'', competencies = Some [''finance'']\<rparr>,
           \<lparr>user_id = ''cy'', competencies = None\<rparr>]"

definition crew_tasks :: "CompletedTask list" where
  "crew_tasks = [\<lparr>runbook_id = ''rb-3'', assignee_id = ''cy''\<rparr>]"

definition crew_fragments :: "KnowledgeFragment list" where
  "crew_fragments = [\<lparr>kf_category = Vendor_relations, kf_user_id = ''bob''\<rparr>]"

section \<open>Properties of the scoring loop\<close>

subsection \<open>Closed forms of the loops\<close>

lemma group_fold:
  "or_empty (fold (\<lambda>rb acc.
        let acc1 = (if acc (category rb) = None then acc(category rb \<mapsto> []) else acc)
        in (case acc1 (category rb) of
              None \<Rightarrow> acc1
            | Some l \<Rightarrow> acc1(category rb \<mapsto> l @ [rb]))) rbs acc c)
   = or_empty (acc c) @ filter (\<lambda>rb. category rb = c) rbs"
  by (induction rbs arbitrary: acc) (auto simp: or_empty_def Let_def split: option.splits)

lemma catRunbooks_filter:
  "catRunbooks rbs c = filter (\<lambda>rb. category rb = c) rbs"
  unfolding catRunbooks_def runbooksByCategory_def using group_fold [of rbs Map.empty c]
  by (simp add: or_empty_def)

lemma runbook_step_eq:
  "runbook_step tr cat rb (covered, st) =
     (covered + (if 2 \<le> trainedCount tr rb then 1 else 0),
      st\<lparr>criticalGaps := criticalGaps st @ (if trainedCount tr rb < 2 then [procedure_gap tr cat rb] else []),
         globalMinTrained := min (globalMinTrained st) (enat (trainedCount tr rb))\<rparr>)"
  by (simp add: runbook_step_def Let_def min_def)

lemma fold_runbook_step:
  "fold (runbook_step tr cat) rbs (covered, st) =
     (covered + length (filter (\<lambda>rb. 2 \<le> trainedCount tr rb) rbs),
      st\<lparr>criticalGaps := criticalGaps st @ map (procedure_gap tr cat) (filter (\<lambda>rb. trainedCount tr rb < 2) rbs),
         globalMinTrained := fold (\<lambda>rb m. min m (enat (trainedCount tr rb))) rbs (globalMinTrained st)\<rparr>)"
  by (induction rbs arbitrary: covered st) (simp_all add: runbook_step_eq)

lemma category_step_eq:
  "category_step rbs tr c st =
     \<lparr>scores = AList.update c (cat_score rbs tr c) (scores st),
      criticalGaps = criticalGaps st @ cat_gaps rbs tr c,
      globalMinTrained = cat_min rbs tr c (globalMinTrained st)\<rparr>"
  by (simp add: category_step_def fold_runbook_step cat_score_def cat_gaps_def cat_min_def
        covered_count_def risk_of_def Let_def)

lemma fold_category_step:
  "fold (category_step rbs tr) cs st =
     \<lparr>scores = fold (\<lambda>c. AList.update c (cat_score rbs tr c)) cs (scores st),
      criticalGaps = criticalGaps st @ concat (map (cat_gaps rbs tr) cs),
      globalMinTrained = fold (cat_min rbs tr) cs (globalMinTrained st)\<rparr>"
  by (induction cs arbitrary: st) (simp_all add: category_step_eq)

lemma engine_scores:
  "an_scores (computeBusFactor rbs tr) = map (\<lambda>c. (c, cat_score rbs tr c)) categories"
  unfolding computeBusFactor_def Let_def fold_category_step
  by (simp add: initial_state_def categories_def)

lemma engine_gaps:
  "an_criticalGaps (computeBusFactor rbs tr) = concat (map (cat_gaps rbs tr) categories)"
  by (simp add: computeBusFactor_def Let_def fold_category_step initial_state_def)

lemma engine_busFactor:
  "an_busFactor (computeBusFactor rbs tr) =
     (if fold (cat_min rbs tr) categories \<infinity> = \<infinity> then 0
      else the_enat (fold (cat_min rbs tr) categories \<infinity>))"
  by (auto simp add: computeBusFactor_def Let_def fold_category_step initial_state_def zero_enat_def)


lemma cat_min_le: "cat_min rbs tr c m \<le> m"
proof -
  have "fold (\<lambda>rb m. min m (enat (trainedCount tr rb))) l m \<le> m" for l
    by (induction l arbitrary: m) (auto intro: order_trans [OF _ min.cobounded1])
  then show ?thesis by (simp add: cat_min_def)
qed

lemma fold_min_le_elem:
  "rb \<in> set l \<Longrightarrow> fold (\<lambda>rb m. min m (enat (trainedCount tr rb))) l m \<le> enat (trainedCount tr rb)"
proof (induction l arbitrary: m)
  case Nil then show ?case by simp
next
  case (Cons a l)
  have le: "fold (\<lambda>rb m. min m (enat (trainedCount tr rb))) l m' \<le> m'" for m'
    by (induction l arbitrary: m') (auto intro: order_trans [OF _ min.cobounded1])
  show ?case
  proof (cases "rb = a")
    case True
    then show ?thesis using le [of "min m (enat (trainedCount tr a))"] by (simp add: min_le_iff_disj)
  next
    case False
    with Cons show ?thesis by simp
  qed
qed

lemma fold_min_cases:
  "fold (\<lambda>rb m. min m (enat (trainedCount tr rb))) l m = m
   \<or> (\<exists>rb \<in> set l. fold (\<lambda>rb m. min m (enat (trainedCount tr rb))) l m = enat (trainedCount tr rb))"
proof (induction l arbitrary: m)
  case Nil then show ?case by simp
next
  case (Cons a l)
  from Cons [of "min m (enat (trainedCount tr a))"] show ?case
    by (auto simp: min_def split: if_splits)
qed

lemma cat_min_le_elem:
  "rb \<in> set (catRunbooks rbs c) \<Longrightarrow> cat_min rbs tr c m \<le> enat (trainedCount tr rb)"
  by (auto simp: cat_min_def fold_min_le_elem)

lemma cat_min_empty: "catRunbooks rbs c = [] \<Longrightarrow> cat_min rbs tr c m = 0"
  by (simp add: cat_min_def)

lemma cat_min_cases:
  "catRunbooks rbs c \<noteq> [] \<Longrightarrow>
     cat_min rbs tr c m = m \<or> (\<exists>rb \<in> set (catRunbooks rbs c). cat_min rbs tr c m = enat (trainedCount tr rb))"
  using fold_min_cases [of tr "catRunbooks rbs c" m] by (simp add: cat_min_def)

lemma fold_cat_min_le: "fold (cat_min rbs tr) cs m \<le> m"
  by (induction cs arbitrary: m) (auto intro: order_trans [OF _ cat_min_le])

lemma fold_cat_min_le_elem:
  "c \<in> set cs \<Longrightarrow> rb \<in> set (catRunbooks rbs c) \<Longrightarrow>
     fold (cat_min rbs tr) cs m \<le> enat (trainedCount tr rb)"
proof (induction cs arbitrary: m)
  case Nil then show ?case by simp
next
  case (Cons a cs)
  show ?case
  proof (cases "c = a")
    case True
    have "fold (cat_min rbs tr) cs (cat_min rbs tr a m) \<le> cat_min rbs tr a m"
      by (rule fold_cat_min_le)
    also have "\<dots> \<le> enat (trainedCount tr rb)"
      using Cons.prems True by (simp add: cat_min_le_elem)
    finally show ?thesis by simp
  next
    case False
    with Cons show ?thesis by simp
  qed
qed

lemma fold_cat_min_empty:
  "c \<in> set cs \<Longrightarrow> catRunbooks rbs c = [] \<Longrightarrow> fold (cat_min rbs tr) cs m = 0"
proof (induction cs arbitrary: m)
  case Nil then show ?case by simp
next
  case (Cons a cs)
  show ?case
  proof (cases "c = a")
    case True
    have "fold (cat_min rbs tr) cs (cat_min rbs tr a m) \<le> cat_min rbs tr a m"
      by (rule fold_cat_min_le)
    then show ?thesis using Cons.prems True by (simp add: cat_min_empty)
  next
    case False
    with Cons show ?thesis by simp
  qed
qed

lemma fold_cat_min_cases:
  "\<forall>c \<in> set cs. catRunbooks rbs c \<noteq> [] \<Longrightarrow>
     fold (cat_min rbs tr) cs m = m
     \<or> (\<exists>c \<in> set cs. \<exists>rb \<in> set (catRunbooks rbs c).
           fold (cat_min rbs tr) cs m = enat (trainedCount tr rb))"
proof (induction cs arbitrary: m)
  case Nil then show ?case by simp
next
  case (Cons a cs)
  from Cons.prems have ne: "catRunbooks rbs a \<noteq> []" and rest: "\<forall>c \<in> set cs. catRunbooks rbs c \<noteq> []"
    by simp_all
  from Cons.IH [OF rest, of "cat_min rbs tr a m"] cat_min_cases [OF ne, of tr m]
  show ?case by auto
qed

lemma set_categories: "set categories = UNIV"
proof -
  have "c \<in> set categories" for c by (cases c) (simp_all add: categories_def)
  then show ?thesis by auto
qed

lemma in_catRunbooks: "rb \<in> set rbs \<Longrightarrow> rb \<in> set (catRunbooks rbs (category rb))"
  by (simp add: catRunbooks_filter)

lemma busFactor_le: 
  "rb \<in> set rbs \<Longrightarrow> an_busFactor (computeBusFactor rbs tr) \<le> trainedCount tr rb"
proof -
  assume a: "rb \<in> set rbs"
  have "fold (cat_min rbs tr) categories \<infinity> \<le> enat (trainedCount tr rb)"
    by (rule fold_cat_min_le_elem [of "category rb"]) (simp_all add: set_categories in_catRunbooks a)
  then show ?thesis
    by (cases "fold (cat_min rbs tr) categories \<infinity>") (simp_all add: engine_busFactor)
qed

lemma busFactor_empty_category:
  "catRunbooks rbs c = [] \<Longrightarrow> an_busFactor (computeBusFactor rbs tr) = 0"
  using fold_cat_min_empty [of c categories rbs tr \<infinity>]
  by (simp add: engine_busFactor set_categories zero_enat_def)

lemma busFactor_attained:
  assumes "\<forall>c. catRunbooks rbs c \<noteq> []"
  shows "\<exists>rb \<in> set rbs. an_busFactor (computeBusFactor rbs tr) = trainedCount tr rb"
proof -
  let ?m = "fold (cat_min rbs tr) categories \<infinity>"
  from assms have "catRunbooks rbs Operations \<noteq> []" by simp
  then obtain r where r: "r \<in> set (catRunbooks rbs Operations)" by (cases "catRunbooks rbs Operations") auto
  have "?m \<le> enat (trainedCount tr r)"
    by (rule fold_cat_min_le_elem [of Operations]) (simp_all add: set_categories r)
  then have fin: "?m \<noteq> \<infinity>" by (cases ?m) auto
  from fold_cat_min_cases [of categories rbs tr \<infinity>] assms fin
  obtain c rb where "rb \<in> set (catRunbooks rbs c)" "?m = enat (trainedCount tr rb)" by auto
  then show ?thesis by (auto simp: engine_busFactor catRunbooks_filter)
qed

lemma busFactor_is_Min:
  assumes "\<forall>c. catRunbooks rbs c \<noteq> []"
  shows "an_busFactor (computeBusFactor rbs tr) = Min (trainedCount tr ` set rbs)"
proof -
  from busFactor_attained [OF assms] obtain rb where
    rb: "rb \<in> set rbs" "an_busFactor (computeBusFactor rbs tr) = trainedCount tr rb" by auto
  have "Min (trainedCount tr ` set rbs) = an_busFactor (computeBusFactor rbs tr)"
  proof (rule Min_eqI)
    show "finite (trainedCount tr ` set rbs)" by simp
    show "an_busFactor (computeBusFactor rbs tr) \<le> y" if "y \<in> trainedCount tr ` set rbs" for y
      using that busFactor_le by auto
    show "an_busFactor (computeBusFactor rbs tr) \<in> trainedCount tr ` set rbs"
      using rb by auto
  qed
  then show ?thesis by simp
qed

subsection \<open>Recognising a gap by its \<open>function\<close> text\<close>

lemma label_neq_key: "gap_label c t \<noteq> category_key c'"
  by (cases c; cases c') (simp_all add: gap_label_def)

lemma label_inj:
  "gap_label c t = gap_label c' t' \<longleftrightarrow> c = c' \<and> t = t'"
  by (cases c; cases c') (simp_all add: gap_label_def)



lemma filter_label_cat_gaps:
  "filter (\<lambda>g. gap_function g = gap_label c0 t0) (cat_gaps rbs tr c) =
     (if c = c0
      then map (procedure_gap tr c0)
             (filter (\<lambda>rb. trainedCount tr rb < 2)
                (filter (\<lambda>rb. category rb = c0 \<and> title rb = t0) rbs))
      else [])"
  by (auto simp: cat_gaps_def empty_category_gap_def procedure_gap_def label_neq_key [symmetric] label_inj
        filter_map comp_def catRunbooks_filter filter_empty_conv intro!: filter_cong arg_cong [where f = "map _"])


lemma filter_label_gaps:
  "filter (\<lambda>g. gap_function g = gap_label c0 t0) (an_criticalGaps (computeBusFactor rbs tr)) =
     map (procedure_gap tr c0)
             (filter (\<lambda>rb. trainedCount tr rb < 2)
                (filter (\<lambda>rb. category rb = c0 \<and> title rb = t0) rbs))"
  unfolding engine_gaps filter_concat map_map comp_def filter_label_cat_gaps
  by (cases c0) (simp_all add: categories_def)

subsection \<open>Reading \<open>scores\<close>\<close>

lemma map_of_engine_scores:
  "map_of (an_scores (computeBusFactor rbs tr)) c = Some (cat_score rbs tr c)"
  unfolding engine_scores by (cases c) (simp_all add: categories_def)

subsection \<open>Risk level of a category with runbooks\<close>

text \<open>
  Claim C2.  For every category that has at least one runbook, the entry the handler writes
  into \<open>scores\<close> has as coverage the number of its runbooks with two or more trained
  users divided by the number of its runbooks, and its risk level is fixed by that coverage
  alone: below 0.5 it is critical, from 0.5 and below 0.8 it is high, from 0.8 on it is low.
\<close>

theorem risk_level_from_coverage:
  assumes "catRunbooks rbs c \<noteq> []"
  shows "\<exists>s. map_of (an_scores (computeBusFactor rbs tr)) c = Some s
          \<and> coverage s = of_nat (length (filter (\<lambda>rb. 2 \<le> trainedCount tr rb) (catRunbooks rbs c)))
                           / of_nat (length (catRunbooks rbs c))
          \<and> riskLevel s = (if coverage s < 1 / 2 then Critical
                            else if coverage s < 4 / 5 then High else Low)"
  using assms by (simp add: map_of_engine_scores cat_score_def covered_count_def risk_of_def)

lemma shop_cat_ops: "catRunbooks shop_runbooks Operations =
     [\<lparr>rb_id = ''rb-1'', category = Operations, title = ''Open the shop''\<rparr>,
      \<lparr>rb_id = ''rb-2'', category = Operations, title = ''Lockout and tagout''\<rparr>,
      \<lparr>rb_id = ''rb-4'', category = Operations, title = ''Emergency shutdown''\<rparr>,
      \<lparr>rb_id = ''rb-5'', category = Operations, title = ''Forklift inspection''\<rparr>]"
  by (simp add: catRunbooks_filter shop_runbooks_def)

theorem risk_level_from_coverage_witness:
  "catRunbooks shop_runbooks Operations \<noteq> []
   \<and> map_of (an_scores (computeBusFactor shop_runbooks shop_training)) Operations
       = Some \<lparr>coverage = 1 / 2, riskLevel = High\<rparr>"
proof -
  have h: "catRunbooks shop_runbooks Operations \<noteq> []"
    by (simp add: shop_cat_ops)
  from risk_level_from_coverage [OF h, of shop_training]
  obtain s where s: "map_of (an_scores (computeBusFactor shop_runbooks shop_training)) Operations = Some s"
     "coverage s = of_nat (length (filter (\<lambda>rb. 2 \<le> trainedCount shop_training rb) (catRunbooks shop_runbooks Operations)))
                           / of_nat (length (catRunbooks shop_runbooks Operations))"
     "riskLevel s = (if coverage s < 1 / 2 then Critical
                            else if coverage s < 4 / 5 then High else Low)" by blast
  have c: "coverage s = 1 / 2"
    unfolding s(2) shop_cat_ops by (simp add: trainedCount_def shop_training_def)
  have "riskLevel s = High" unfolding s(3) c by simp
  with c have "s = \<lparr>coverage = 1 / 2, riskLevel = High\<rparr>" by simp
  with h s(1) show ?thesis by simp
qed

subsection \<open>Every category is scored\<close>



subsection \<open>Order of the critical gaps\<close>

text \<open>
  Claim C10.  \<open>criticalGaps\<close> is the concatenation, over the categories in the order
  operations, finance, client_management, vendor_relations, of: the single "no documented
  procedures" gap when the category has no runbook, and otherwise the gaps of the category's
  runbooks with fewer than two trained users, in the order these runbooks have in the input.
\<close>

theorem critical_gaps_order:
  "an_criticalGaps (computeBusFactor rbs tr) =
     concat (map (\<lambda>c. if filter (\<lambda>rb. category rb = c) rbs = []
                       then [empty_category_gap c]
                       else map (procedure_gap tr c)
                              (filter (\<lambda>rb. trainedCount tr rb < 2)
                                 (filter (\<lambda>rb. category rb = c) rbs)))
               [Operations, Finance, Client_management, Vendor_relations])"
  by (simp add: engine_gaps categories_def cat_gaps_def catRunbooks_filter)

theorem critical_gaps_order_witness:
  "an_criticalGaps (computeBusFactor
       (ledger_runbooks @ [\<lparr>rb_id = ''rb-8'', category = Operations, title = ''Close up''\<rparr>,
                           \<lparr>rb_id = ''rb-0'', category = Operations, title = ''Fire drill''\<rparr>])
       ledger_training) =
     [\<lparr>gap_function = ''operations: Close up'',
       singlePointOfFailure = ''No employees have verified competency'',
       recommendedAction = ''Assign and verify training for at least two employees''\<rparr>,
      \<lparr>gap_function = ''operations: Fire drill'',
       singlePointOfFailure = ''No employees have verified competency'',
       recommendedAction = ''Assign and verify training for at least two employees''\<rparr>,
      \<lparr>gap_function = ''client_management'',
       singlePointOfFailure = ''No documented procedures exist for this function'',
       recommendedAction = ''Create emergency runbooks immediately''\<rparr>,
      \<lparr>gap_function = ''vendor_relations'',
       singlePointOfFailure = ''No documented procedures exist for this function'',
       recommendedAction = ''Create emergency runbooks immediately''\<rparr>]"
  unfolding critical_gaps_order
  by (simp add: ledger_runbooks_def ledger_training_def trainedCount_def procedure_gap_def
        empty_category_gap_def gap_label_def)

subsection \<open>Recognising the gaps of a category\<close>

lemma gap_of_category_label:
  "gap_of_category c0 \<lparr>gap_function = gap_label c t, singlePointOfFailure = x, recommendedAction = y\<rparr>
     \<longleftrightarrow> c = c0"
  by (cases c; cases c0) (simp_all add: gap_label_def gap_of_category_def)

lemma gap_of_category_key:
  "\<not> gap_of_category c0 \<lparr>gap_function = category_key c, singlePointOfFailure = x, recommendedAction = y\<rparr>"
  by (cases c; cases c0) (simp_all add: gap_of_category_def)

lemma filter_prefix_cat_gaps:
  "filter (gap_of_category c0) (cat_gaps rbs tr c) =
   (if c = c0 then map (procedure_gap tr c0) (filter (\<lambda>rb. trainedCount tr rb < 2) (catRunbooks rbs c0))
    else [])"
  by (auto simp: cat_gaps_def empty_category_gap_def procedure_gap_def gap_of_category_label
        gap_of_category_key filter_map comp_def filter_empty_conv)

lemma filter_prefix_gaps:
  "filter (gap_of_category c0) (an_criticalGaps (computeBusFactor rbs tr)) =
   map (procedure_gap tr c0) (filter (\<lambda>rb. trainedCount tr rb < 2) (catRunbooks rbs c0))"
  unfolding engine_gaps filter_concat map_map comp_def filter_prefix_cat_gaps
  by (cases c0) (simp_all add: categories_def)

subsection \<open>One gap for each runbook with fewer than two trained users\<close>

lemma trainedCount_one:
  "trainedCount tr rb = 1 \<Longrightarrow> \<exists>u. tr (rb_id rb) = Some [u] \<and> first_user tr rb = u"
  by (auto simp: trainedCount_def first_user_def length_Suc_conv split: option.splits)

text \<open>
  Claim C4.  Take any runbook \<open>rb\<close> of the input, at any position: the input is
  \<open>xs\<close>, then \<open>rb\<close>, then \<open>ys\<close>.  The entries of \<open>criticalGaps\<close> that
  belong to the category of \<open>rb\<close> are the entries of the runbooks of that category in
  \<open>xs\<close>, then the entries \<open>own\<close> of \<open>rb\<close> itself, then the entries of the
  runbooks of that category in \<open>ys\<close>, where each other runbook has one entry when fewer
  than two users are trained on it and none otherwise.  If two or more users are trained on
  \<open>rb\<close>, \<open>own\<close> is empty: \<open>rb\<close> does not appear.  If exactly one user
  \<open>u\<close> is trained, \<open>own\<close> is exactly one entry, which names \<open>u\<close> as the single
  employee and recommends cross-training.  If nobody is trained, \<open>own\<close> is exactly one
  entry, which says that no employee has verified competency and recommends to assign and
  verify training.  Nothing is assumed on titles: runbooks that share a category and a title
  each have their own entry, and the entries carrying the text \<open>category: title\<close> of
  \<open>rb\<close> are, one for one and in input order, the runbooks of the input with that
  category and title and fewer than two trained users.
\<close>

theorem gap_per_procedure:
  assumes "rbs = xs @ rb # ys"
  shows "\<exists>own :: Gap list.
      filter (gap_of_category (category rb)) (an_criticalGaps (computeBusFactor rbs tr))
        = map (procedure_gap tr (category rb))
            (filter (\<lambda>r. trainedCount tr r < 2) (filter (\<lambda>r. category r = category rb) xs))
          @ own
          @ map (procedure_gap tr (category rb))
              (filter (\<lambda>r. trainedCount tr r < 2) (filter (\<lambda>r. category r = category rb) ys))
      \<and> (2 \<le> trainedCount tr rb \<longrightarrow> own = [])
      \<and> (trainedCount tr rb = 1 \<longrightarrow>
            (\<exists>u. tr (rb_id rb) = Some [u] \<and>
              own = [\<lparr>gap_function = category_key (category rb) @ '': '' @ title rb,
                      singlePointOfFailure = ''Single employee ('' @ u @ '') has verified competency'',
                      recommendedAction = ''Cross-train additional employee immediately''\<rparr>]))
      \<and> (trainedCount tr rb = 0 \<longrightarrow>
            own = [\<lparr>gap_function = category_key (category rb) @ '': '' @ title rb,
                    singlePointOfFailure = ''No employees have verified competency'',
                    recommendedAction = ''Assign and verify training for at least two employees''\<rparr>])
      \<and> filter (\<lambda>g. gap_function g = category_key (category rb) @ '': '' @ title rb)
            (an_criticalGaps (computeBusFactor rbs tr))
          = map (procedure_gap tr (category rb))
              (filter (\<lambda>r. trainedCount tr r < 2)
                 (filter (\<lambda>r. category r = category rb \<and> title r = title rb) rbs))"
proof -
  let ?c = "category rb"
  let ?own = "map (procedure_gap tr ?c) (filter (\<lambda>r. trainedCount tr r < 2) [rb])"
  let ?G = "\<lambda>l. map (procedure_gap tr ?c)
            (filter (\<lambda>r. trainedCount tr r < 2) (filter (\<lambda>r. category r = ?c) l))"
  have split: "filter (gap_of_category ?c) (an_criticalGaps (computeBusFactor rbs tr))
                 = ?G xs @ ?own @ ?G ys"
    unfolding filter_prefix_gaps catRunbooks_filter assms by simp
  have none: "2 \<le> trainedCount tr rb \<longrightarrow> ?own = []" by simp
  have one: "trainedCount tr rb = 1 \<longrightarrow>
            (\<exists>u. tr (rb_id rb) = Some [u] \<and>
              ?own = [\<lparr>gap_function = category_key ?c @ '': '' @ title rb,
                      singlePointOfFailure = ''Single employee ('' @ u @ '') has verified competency'',
                      recommendedAction = ''Cross-train additional employee immediately''\<rparr>])"
  proof
    assume o: "trainedCount tr rb = 1"
    from trainedCount_one [OF o] obtain u where u: "tr (rb_id rb) = Some [u]" "first_user tr rb = u"
      by blast
    have "?own = [\<lparr>gap_function = category_key ?c @ '': '' @ title rb,
                      singlePointOfFailure = ''Single employee ('' @ u @ '') has verified competency'',
                      recommendedAction = ''Cross-train additional employee immediately''\<rparr>]"
      using o u(2) by (simp add: procedure_gap_def gap_label_def)
    with u(1) have "tr (rb_id rb) = Some [u] \<and>
              ?own = [\<lparr>gap_function = category_key ?c @ '': '' @ title rb,
                      singlePointOfFailure = ''Single employee ('' @ u @ '') has verified competency'',
                      recommendedAction = ''Cross-train additional employee immediately''\<rparr>]"
      by (rule conjI)
    then show "\<exists>u. tr (rb_id rb) = Some [u] \<and>
              ?own = [\<lparr>gap_function = category_key ?c @ '': '' @ title rb,
                      singlePointOfFailure = ''Single employee ('' @ u @ '') has verified competency'',
                      recommendedAction = ''Cross-train additional employee immediately''\<rparr>]"
      by (rule exI [where x = u])
  qed
  have zero: "trainedCount tr rb = 0 \<longrightarrow>
            ?own = [\<lparr>gap_function = category_key ?c @ '': '' @ title rb,
                    singlePointOfFailure = ''No employees have verified competency'',
                    recommendedAction = ''Assign and verify training for at least two employees''\<rparr>]"
    by (simp add: procedure_gap_def gap_label_def)
  have label_eq: "filter (\<lambda>g. gap_function g = category_key ?c @ '': '' @ title rb)
            (an_criticalGaps (computeBusFactor rbs tr))
          = map (procedure_gap tr ?c)
              (filter (\<lambda>r. trainedCount tr r < 2)
                 (filter (\<lambda>r. category r = ?c \<and> title r = title rb) rbs))"
    using filter_label_gaps [of ?c "title rb" rbs tr] by (simp only: gap_label_def)
  show ?thesis
    by (rule exI [where x = ?own], intro conjI, rule split, rule none, rule one, rule zero,
        rule label_eq)
qed

theorem gap_per_procedure_witness:
  "twin_runbooks = [\<lparr>rb_id = ''rb-a'', category = Operations, title = ''Close up''\<rparr>]
       @ \<lparr>rb_id = ''rb-b'', category = Operations, title = ''Close up''\<rparr>
       # [\<lparr>rb_id = ''rb-c'', category = Operations, title = ''Close up''\<rparr>]
   \<and> map (trainedCount twin_training) twin_runbooks = [2, 0, 1]
   \<and> filter (gap_of_category Operations) (an_criticalGaps (computeBusFactor twin_runbooks twin_training))
       = [\<lparr>gap_function = ''operations: Close up'',
            singlePointOfFailure = ''No employees have verified competency'',
            recommendedAction = ''Assign and verify training for at least two employees''\<rparr>,
          \<lparr>gap_function = ''operations: Close up'',
            singlePointOfFailure = ''Single employee (cy) has verified competency'',
            recommendedAction = ''Cross-train additional employee immediately''\<rparr>]"
proof -
  let ?a = "\<lparr>rb_id = ''rb-a'', category = Operations, title = ''Close up''\<rparr>"
  let ?b = "\<lparr>rb_id = ''rb-b'', category = Operations, title = ''Close up''\<rparr>"
  let ?c = "\<lparr>rb_id = ''rb-c'', category = Operations, title = ''Close up''\<rparr>"
  have h: "twin_runbooks = [?a] @ ?b # [?c]" by (simp add: twin_runbooks_def)
  have n: "trainedCount twin_training ?a = 2" "trainedCount twin_training ?b = 0"
    "trainedCount twin_training ?c = 1"
    by (simp_all add: trainedCount_def twin_training_def)
  have g: "procedure_gap twin_training Operations ?c
      = \<lparr>gap_function = ''operations: Close up'',
            singlePointOfFailure = ''Single employee (cy) has verified competency'',
            recommendedAction = ''Cross-train additional employee immediately''\<rparr>"
    by (simp add: procedure_gap_def gap_label_def trainedCount_def first_user_def twin_training_def)
  have "filter (gap_of_category Operations) (an_criticalGaps (computeBusFactor twin_runbooks twin_training))
       = [\<lparr>gap_function = ''operations: Close up'',
            singlePointOfFailure = ''No employees have verified competency'',
            recommendedAction = ''Assign and verify training for at least two employees''\<rparr>,
          \<lparr>gap_function = ''operations: Close up'',
            singlePointOfFailure = ''Single employee (cy) has verified competency'',
            recommendedAction = ''Cross-train additional employee immediately''\<rparr>]"
    using gap_per_procedure [OF h, of twin_training] by (clarsimp simp: n g)
  moreover have "map (trainedCount twin_training) twin_runbooks = [2, 0, 1]"
    by (simp add: twin_runbooks_def n)
  ultimately show ?thesis using h by simp
qed

text \<open>
  When a runbook is the only one of the input with its category and title, the entries of
  \<open>criticalGaps\<close> that carry its text are its own.
\<close>

lemma unique_title_gap:
  assumes "filter (\<lambda>r. category r = category rb \<and> title r = title rb) rbs = [rb]"
  shows "(2 \<le> trainedCount tr rb \<longrightarrow>
            filter (\<lambda>g. gap_function g = category_key (category rb) @ '': '' @ title rb)
              (an_criticalGaps (computeBusFactor rbs tr)) = [])
       \<and> (trainedCount tr rb = 1 \<longrightarrow>
            (\<exists>u. tr (rb_id rb) = Some [u] \<and>
              filter (\<lambda>g. gap_function g = category_key (category rb) @ '': '' @ title rb)
                (an_criticalGaps (computeBusFactor rbs tr))
              = [\<lparr>gap_function = category_key (category rb) @ '': '' @ title rb,
                   singlePointOfFailure = ''Single employee ('' @ u @ '') has verified competency'',
                   recommendedAction = ''Cross-train additional employee immediately''\<rparr>]))
       \<and> (trainedCount tr rb = 0 \<longrightarrow>
            filter (\<lambda>g. gap_function g = category_key (category rb) @ '': '' @ title rb)
              (an_criticalGaps (computeBusFactor rbs tr))
            = [\<lparr>gap_function = category_key (category rb) @ '': '' @ title rb,
                 singlePointOfFailure = ''No employees have verified competency'',
                 recommendedAction = ''Assign and verify training for at least two employees''\<rparr>])"
proof -
  have f: "filter (\<lambda>g. gap_function g = category_key (category rb) @ '': '' @ title rb)
              (an_criticalGaps (computeBusFactor rbs tr))
           = map (procedure_gap tr (category rb)) (filter (\<lambda>r. trainedCount tr r < 2) [rb])"
    using filter_label_gaps [of "category rb" "title rb" rbs tr] assms
    by (simp only: gap_label_def)
  show ?thesis
  proof (intro conjI impI)
    assume "2 \<le> trainedCount tr rb"
    then show "filter (\<lambda>g. gap_function g = category_key (category rb) @ '': '' @ title rb)
              (an_criticalGaps (computeBusFactor rbs tr)) = []"
      unfolding f by simp
  next
    assume one: "trainedCount tr rb = 1"
    from trainedCount_one [OF one] obtain u where u: "tr (rb_id rb) = Some [u]" "first_user tr rb = u"
      by blast
    have "filter (\<lambda>g. gap_function g = category_key (category rb) @ '': '' @ title rb)
                (an_criticalGaps (computeBusFactor rbs tr))
              = [\<lparr>gap_function = category_key (category rb) @ '': '' @ title rb,
                   singlePointOfFailure = ''Single employee ('' @ u @ '') has verified competency'',
                   recommendedAction = ''Cross-train additional employee immediately''\<rparr>]"
      unfolding f using one u(2) by (simp add: procedure_gap_def gap_label_def)
    with u(1) show "\<exists>u. tr (rb_id rb) = Some [u] \<and>
              filter (\<lambda>g. gap_function g = category_key (category rb) @ '': '' @ title rb)
                (an_criticalGaps (computeBusFactor rbs tr))
              = [\<lparr>gap_function = category_key (category rb) @ '': '' @ title rb,
                   singlePointOfFailure = ''Single employee ('' @ u @ '') has verified competency'',
                   recommendedAction = ''Cross-train additional employee immediately''\<rparr>]"
      by blast
  next
    assume "trainedCount tr rb = 0"
    then show "filter (\<lambda>g. gap_function g = category_key (category rb) @ '': '' @ title rb)
              (an_criticalGaps (computeBusFactor rbs tr))
            = [\<lparr>gap_function = category_key (category rb) @ '': '' @ title rb,
                 singlePointOfFailure = ''No employees have verified competency'',
                 recommendedAction = ''Assign and verify training for at least two employees''\<rparr>]"
      unfolding f by (simp add: procedure_gap_def gap_label_def)
  qed
qed

lemma unique_title_gap_shop:
  "filter (\<lambda>g. gap_function g = ''operations: Open the shop'')
     (an_criticalGaps (computeBusFactor shop_runbooks shop_training)) = []
   \<and> filter (\<lambda>g. gap_function g = ''operations: Lockout and tagout'')
     (an_criticalGaps (computeBusFactor shop_runbooks shop_training))
     = [\<lparr>gap_function = ''operations: Lockout and tagout'',
          singlePointOfFailure = ''Single employee (ann) has verified competency'',
          recommendedAction = ''Cross-train additional employee immediately''\<rparr>]
   \<and> filter (\<lambda>g. gap_function g = ''operations: Forklift inspection'')
     (an_criticalGaps (computeBusFactor shop_runbooks shop_training))
     = [\<lparr>gap_function = ''operations: Forklift inspection'',
          singlePointOfFailure = ''No employees have verified competency'',
          recommendedAction = ''Assign and verify training for at least two employees''\<rparr>]"
proof -
  let ?r1 = "\<lparr>rb_id = ''rb-1'', category = Operations, title = ''Open the shop''\<rparr>"
  let ?r2 = "\<lparr>rb_id = ''rb-2'', category = Operations, title = ''Lockout and tagout''\<rparr>"
  let ?r5 = "\<lparr>rb_id = ''rb-5'', category = Operations, title = ''Forklift inspection''\<rparr>"
  have u1: "filter (\<lambda>r. category r = category ?r1 \<and> title r = title ?r1) shop_runbooks = [?r1]"
    by (simp add: shop_runbooks_def)
  have u2: "filter (\<lambda>r. category r = category ?r2 \<and> title r = title ?r2) shop_runbooks = [?r2]"
    by (simp add: shop_runbooks_def)
  have u5: "filter (\<lambda>r. category r = category ?r5 \<and> title r = title ?r5) shop_runbooks = [?r5]"
    by (simp add: shop_runbooks_def)
  have c1: "trainedCount shop_training ?r1 = 3" by (simp add: trainedCount_def shop_training_def)
  have c2: "trainedCount shop_training ?r2 = 1" by (simp add: trainedCount_def shop_training_def)
  have t2: "shop_training (rb_id ?r2) = Some [''ann'']" by (simp add: shop_training_def)
  have c5: "trainedCount shop_training ?r5 = 0" by (simp add: trainedCount_def shop_training_def)
  show ?thesis
    using unique_title_gap [OF u1, of shop_training] unique_title_gap [OF u2, of shop_training]
      unique_title_gap [OF u5, of shop_training] c1 c2 c5 t2
    by simp
qed

subsection \<open>The scenario with counts 3, 1, 2, 0\<close>

text \<open>
  Claim C3.  Let a category have exactly four runbooks whose trained-user counts are, in
  input order, 3, 1, 2 and 0.  Then the counter \<open>covered\<close> ends at 2, the category's
  entry in \<open>scores\<close> is coverage 0.5 with risk level high, \<open>criticalGaps\<close> holds
  exactly two entries of that category, the one of the second runbook (count 1) and the one
  of the fourth (count 0), the running minimum \<open>globalMinTrained\<close> is 0 after the
  category's pass whatever it was before, and \<open>busFactor\<close> is 0.
\<close>

theorem scenario_3_1_2_0:
  assumes "map (trainedCount tr) (catRunbooks rbs c) = [3, 1, 2, 0]"
  shows "fst (fold (runbook_step tr c) (catRunbooks rbs c) (0, st)) = 2
       \<and> map_of (an_scores (computeBusFactor rbs tr)) c = Some \<lparr>coverage = 1 / 2, riskLevel = High\<rparr>
       \<and> filter (gap_of_category c) (an_criticalGaps (computeBusFactor rbs tr))
          = [procedure_gap tr c (catRunbooks rbs c ! 1), procedure_gap tr c (catRunbooks rbs c ! 3)]
       \<and> trainedCount tr (catRunbooks rbs c ! 1) = 1
       \<and> trainedCount tr (catRunbooks rbs c ! 3) = 0
       \<and> globalMinTrained (category_step rbs tr c st) = 0
       \<and> an_busFactor (computeBusFactor rbs tr) = 0"
proof -
  from assms obtain p1 p2 p3 p4 where l: "catRunbooks rbs c = [p1, p2, p3, p4]"
    and n: "trainedCount tr p1 = 3" "trainedCount tr p2 = 1" "trainedCount tr p3 = 2" "trainedCount tr p4 = 0"
    by (auto simp: map_eq_Cons_conv)
  have cov: "fst (fold (runbook_step tr c) (catRunbooks rbs c) (0, st)) = 2"
    unfolding fold_runbook_step by (simp add: l n)
  have sc: "map_of (an_scores (computeBusFactor rbs tr)) c = Some \<lparr>coverage = 1 / 2, riskLevel = High\<rparr>"
    by (simp add: map_of_engine_scores cat_score_def covered_count_def risk_of_def l n)
  have g: "filter (gap_of_category c) (an_criticalGaps (computeBusFactor rbs tr))
          = [procedure_gap tr c (catRunbooks rbs c ! 1), procedure_gap tr c (catRunbooks rbs c ! 3)]"
    unfolding filter_prefix_gaps by (simp add: l n)
  have "cat_min rbs tr c (globalMinTrained st) \<le> enat (trainedCount tr p4)"
    by (rule cat_min_le_elem) (simp add: l)
  then have m: "globalMinTrained (category_step rbs tr c st) = 0"
    by (simp add: category_step_eq n zero_enat_def [symmetric])
  have "p4 \<in> set rbs" using l catRunbooks_filter [of rbs c]
    by (metis filter_is_subset list.set_intros(1) list.set_intros(2) subsetD)
  from busFactor_le [OF this, of tr] n have b: "an_busFactor (computeBusFactor rbs tr) = 0" by simp
  from cov sc g m b n l show ?thesis by simp
qed

theorem scenario_3_1_2_0_witness:
  "map (trainedCount shop_training) (catRunbooks shop_runbooks Operations) = [3, 1, 2, 0]
   \<and> fst (fold (runbook_step shop_training Operations) (catRunbooks shop_runbooks Operations)
             (0, initial_state)) = 2
   \<and> map_of (an_scores (computeBusFactor shop_runbooks shop_training)) Operations
        = Some \<lparr>coverage = 1 / 2, riskLevel = High\<rparr>
   \<and> filter (gap_of_category Operations) (an_criticalGaps (computeBusFactor shop_runbooks shop_training))
        = [\<lparr>gap_function = ''operations: Lockout and tagout'',
             singlePointOfFailure = ''Single employee (ann) has verified competency'',
             recommendedAction = ''Cross-train additional employee immediately''\<rparr>,
           \<lparr>gap_function = ''operations: Forklift inspection'',
             singlePointOfFailure = ''No employees have verified competency'',
             recommendedAction = ''Assign and verify training for at least two employees''\<rparr>]
   \<and> globalMinTrained (category_step shop_runbooks shop_training Operations initial_state) = 0
   \<and> an_busFactor (computeBusFactor shop_runbooks shop_training) = 0"
proof -
  have h: "map (trainedCount shop_training) (catRunbooks shop_runbooks Operations) = [3, 1, 2, 0]"
    by (simp add: shop_cat_ops trainedCount_def shop_training_def)
  have p: "procedure_gap shop_training Operations (catRunbooks shop_runbooks Operations ! 1)
            = \<lparr>gap_function = ''operations: Lockout and tagout'',
             singlePointOfFailure = ''Single employee (ann) has verified competency'',
             recommendedAction = ''Cross-train additional employee immediately''\<rparr>"
          "procedure_gap shop_training Operations (catRunbooks shop_runbooks Operations ! 3)
            = \<lparr>gap_function = ''operations: Forklift inspection'',
             singlePointOfFailure = ''No employees have verified competency'',
             recommendedAction = ''Assign and verify training for at least two employees''\<rparr>"
    by (simp_all add: shop_cat_ops procedure_gap_def gap_label_def trainedCount_def first_user_def
          shop_training_def)
  show ?thesis
    using h scenario_3_1_2_0 [OF h, of initial_state] by (simp only: p simp_thms)
qed

subsection \<open>Training a second person never lowers a score\<close>

lemma length_filter_mono:
  "(\<And>x. x \<in> set l \<Longrightarrow> P x \<Longrightarrow> Q x) \<Longrightarrow> length (filter P l) \<le> length (filter Q l)"
  by (induction l) auto

lemma risk_of_mono: "a \<le> b \<Longrightarrow> risk_rank (risk_of a) \<le> risk_rank (risk_of b)"
  by (simp add: risk_of_def)

lemma cat_score_mono:
  assumes "\<And>r. r \<in> set rbs \<Longrightarrow> 2 \<le> trainedCount tr r \<Longrightarrow> 2 \<le> trainedCount tr' r"
  shows "coverage (cat_score rbs tr c) \<le> coverage (cat_score rbs tr' c)
       \<and> risk_rank (riskLevel (cat_score rbs tr c)) \<le> risk_rank (riskLevel (cat_score rbs tr' c))"
proof (cases "catRunbooks rbs c = []")
  case True
  then show ?thesis by (simp add: cat_score_def)
next
  case False
  have "covered_count rbs tr c \<le> covered_count rbs tr' c"
    unfolding covered_count_def
    by (rule length_filter_mono) (auto simp: catRunbooks_filter assms)
  then have "(of_nat (covered_count rbs tr c) :: rat) / of_nat (length (catRunbooks rbs c))
        \<le> of_nat (covered_count rbs tr' c) / of_nat (length (catRunbooks rbs c))"
    by (simp add: divide_right_mono)
  with False show ?thesis by (simp add: cat_score_def risk_of_mono)
qed

text \<open>
  Claim C8.  Let a runbook of the input have exactly one trained user \<open>u\<close>, and let a
  second user \<open>v\<close> be added to its set, so that its count goes from 1 to 2.  Then the
  coverage of the runbook's category does not decrease, and its risk level stays or moves
  towards low in the order critical, high, low.
\<close>

theorem coverage_monotonic:
  assumes "rb \<in> set rbs" and "tr (rb_id rb) = Some [u]" and "v \<noteq> u"
  shows "trainedCount tr rb = 1 \<and> trainedCount (training_add (rb_id rb) v tr) rb = 2
       \<and> (\<exists>s s'. map_of (an_scores (computeBusFactor rbs tr)) (category rb) = Some s
             \<and> map_of (an_scores (computeBusFactor rbs (training_add (rb_id rb) v tr))) (category rb) = Some s'
             \<and> coverage s \<le> coverage s'
             \<and> risk_rank (riskLevel s) \<le> risk_rank (riskLevel s'))"
proof -
  let ?tr' = "training_add (rb_id rb) v tr"
  have tr': "?tr' = tr(rb_id rb \<mapsto> [u, v])"
    using assms by (simp add: training_add_def set_add_def)
  have c1: "trainedCount tr rb = 1" using assms by (simp add: trainedCount_def)
  have c2: "trainedCount ?tr' rb = 2" by (simp add: tr' trainedCount_def)
  have mono: "2 \<le> trainedCount tr r \<Longrightarrow> 2 \<le> trainedCount ?tr' r" for r
    by (simp add: tr' trainedCount_def)
  from cat_score_mono [of rbs tr ?tr' "category rb"] mono
  have "coverage (cat_score rbs tr (category rb)) \<le> coverage (cat_score rbs ?tr' (category rb))
      \<and> risk_rank (riskLevel (cat_score rbs tr (category rb)))
          \<le> risk_rank (riskLevel (cat_score rbs ?tr' (category rb)))" by blast
  with c1 c2 show ?thesis by (simp add: map_of_engine_scores)
qed

theorem coverage_monotonic_witness:
  "trainedCount shop_training \<lparr>rb_id = ''rb-2'', category = Operations, title = ''Lockout and tagout''\<rparr> = 1
   \<and> map_of (an_scores (computeBusFactor shop_runbooks shop_training)) Operations
       = Some \<lparr>coverage = 1 / 2, riskLevel = High\<rparr>
   \<and> map_of (an_scores (computeBusFactor shop_runbooks (training_add ''rb-2'' ''dee'' shop_training))) Operations
       = Some \<lparr>coverage = 3 / 4, riskLevel = High\<rparr>"
proof -
  let ?rb = "\<lparr>rb_id = ''rb-2'', category = Operations, title = ''Lockout and tagout''\<rparr>"
  have h1: "?rb \<in> set shop_runbooks" by (simp add: shop_runbooks_def)
  have h2: "shop_training (rb_id ?rb) = Some [''ann'']" by (simp add: shop_training_def)
  have h3: "''dee'' \<noteq> ''ann''" by simp
  have a: "map_of (an_scores (computeBusFactor shop_runbooks shop_training)) Operations
       = Some \<lparr>coverage = 1 / 2, riskLevel = High\<rparr>"
    by (simp add: map_of_engine_scores cat_score_def covered_count_def shop_cat_ops risk_of_def
          trainedCount_def shop_training_def)
  have b: "map_of (an_scores (computeBusFactor shop_runbooks (training_add ''rb-2'' ''dee'' shop_training))) Operations
       = Some \<lparr>coverage = 3 / 4, riskLevel = High\<rparr>"
    by (simp add: map_of_engine_scores cat_score_def covered_count_def shop_cat_ops risk_of_def
          trainedCount_def shop_training_def training_add_def set_add_def)
  from coverage_monotonic [of ?rb shop_runbooks shop_training "''ann''" "''dee''", OF h1 h2 h3] a b
  show ?thesis by simp
qed

section \<open>Properties of the verification evidence\<close>

lemma grows_refl: "grows m m" by (auto simp: grows_def)

lemma grows_trans: "grows a b \<Longrightarrow> grows b c \<Longrightarrow> grows a c"
  unfolding grows_def by (meson subset_trans)

lemma grows_training_add: "grows m (training_add k v m)"
  by (auto simp: grows_def training_add_def set_add_def split: option.splits)

lemma training_add_member:
  "m k = Some s \<Longrightarrow> \<exists>s'. training_add k v m k = Some s' \<and> v \<in> set s'"
  by (auto simp: training_add_def set_add_def)

lemma grows_fold:
  "(\<And>x m. grows m (f x m)) \<Longrightarrow> grows m (fold f xs m)"
  by (induction xs arbitrary: m) (auto intro: grows_refl grows_trans)

lemma grows_task_pass: "grows m (task_pass ts m)"
  unfolding task_pass_def by (rule grows_fold) (auto intro: grows_refl grows_training_add)

lemma grows_fragment_pass: "grows m (fragment_pass ukk rbs us m)"
  unfolding fragment_pass_def
  by (rule grows_fold, rule grows_fold) (auto intro: grows_refl grows_training_add)

lemma grows_competency_pass: "grows m (competency_pass us rbs m)"
  unfolding competency_pass_def Let_def
  by (rule grows_fold, rule grows_fold) (auto intro: grows_refl grows_training_add)

lemma training_init_dom: "training_init rbs k \<noteq> None \<longleftrightarrow> k \<in> rb_id ` set rbs"
proof -
  have "fold (\<lambda>rb m. m(rb_id rb \<mapsto> [])) rbs m k \<noteq> None \<longleftrightarrow> k \<in> rb_id ` set rbs \<or> m k \<noteq> None" for m :: training
    by (induction rbs arbitrary: m) auto
  from this [of Map.empty] show ?thesis by (simp add: training_init_def)
qed

lemma inner_competency:
  assumes "rb \<in> set rbs" "comp_ok user rb" "m (rb_id rb) \<noteq> None"
  shows "\<exists>s. fold (\<lambda>rb m. if category_key (category rb) \<in> set (or_empty (competencies user))
                            \<or> ''all'' \<in> set (or_empty (competencies user))
             then training_add (rb_id rb) (user_id user) m else m) rbs m (rb_id rb) = Some s
           \<and> user_id user \<in> set s"
  using assms
proof (induction rbs arbitrary: m)
  case Nil then show ?case by simp
next
  case (Cons a rbs)
  let ?f = "\<lambda>rb m. if category_key (category rb) \<in> set (or_empty (competencies user))
                            \<or> ''all'' \<in> set (or_empty (competencies user))
             then training_add (rb_id rb) (user_id user) m else m"
  have g: "grows (?f a m) (fold ?f rbs (?f a m))"
    by (rule grows_fold) (auto intro: grows_refl grows_training_add)
  have g0: "grows m (?f a m)" by (auto intro: grows_refl grows_training_add)
  show ?case
  proof (cases "rb = a")
    case True
    from Cons.prems obtain s0 where s0: "m (rb_id rb) = Some s0" by auto
    from training_add_member [of m "rb_id rb" s0 "user_id user", OF s0] Cons.prems(2) True
    obtain s1 where "?f a m (rb_id rb) = Some s1" "user_id user \<in> set s1"
      by (auto simp: comp_ok_def)
    with g show ?thesis unfolding grows_def by fastforce
  next
    case False
    then have "rb \<in> set rbs" using Cons.prems by simp
    moreover have "?f a m (rb_id rb) \<noteq> None" using g0 Cons.prems(3) unfolding grows_def by fastforce
    ultimately show ?thesis using Cons.IH [of "?f a m"] Cons.prems(2) by simp
  qed
qed

lemma competency_pass_member:
  assumes "user \<in> set users" "rb \<in> set rbs" "comp_ok user rb" "m (rb_id rb) \<noteq> None"
  shows "\<exists>s. competency_pass users rbs m (rb_id rb) = Some s \<and> user_id user \<in> set s"
  using assms
proof (induction users arbitrary: m)
  case Nil then show ?case by simp
next
  case (Cons a users)
  let ?f = "\<lambda>user. fold (\<lambda>rb m. if category_key (category rb) \<in> set (or_empty (competencies user))
                            \<or> ''all'' \<in> set (or_empty (competencies user))
             then training_add (rb_id rb) (user_id user) m else m) rbs"
  have cp: "competency_pass us rbs = fold ?f us" for us
    by (simp add: competency_pass_def Let_def)
  have g0: "grows m (?f a m)"
    by (rule grows_fold) (auto intro: grows_refl grows_training_add)
  have g: "grows (?f a m) (fold ?f users (?f a m))"
    using grows_competency_pass [of "?f a m" users rbs] by (simp add: cp)
  show ?case
  proof (cases "user = a")
    case True
    from inner_competency [of rb rbs user m, OF Cons.prems(2) Cons.prems(3) Cons.prems(4)] True
    obtain s where "?f a m (rb_id rb) = Some s" "user_id user \<in> set s" by auto
    with g show ?thesis unfolding cp grows_def by fastforce
  next
    case False
    then have "user \<in> set users" using Cons.prems by simp
    moreover have "?f a m (rb_id rb) \<noteq> None" using g0 Cons.prems(4) unfolding grows_def by fastforce
    ultimately show ?thesis using Cons.IH [of "?f a m"] Cons.prems(2,3) by (simp add: cp)
  qed
qed

lemma all_distinct_training_add: "all_distinct m \<Longrightarrow> all_distinct (training_add k v m)"
  by (auto simp: all_distinct_def training_add_def set_add_def split: option.splits)

lemma all_distinct_fold:
  "(\<And>x m. all_distinct m \<Longrightarrow> all_distinct (f x m)) \<Longrightarrow> all_distinct m \<Longrightarrow> all_distinct (fold f xs m)"
  by (induction xs arbitrary: m) auto

lemma all_distinct_init: "all_distinct (training_init rbs)"
proof -
  have "all_distinct m \<Longrightarrow> all_distinct (fold (\<lambda>rb m. m(rb_id rb \<mapsto> [])) rbs m)" for m :: training
    by (rule all_distinct_fold) (auto simp: all_distinct_def)
  from this [of Map.empty] show ?thesis by (simp add: training_init_def all_distinct_def)
qed

lemma all_distinct_runbookTraining: "all_distinct (runbookTraining rbs us ts kfs)"
  unfolding runbookTraining_def fragment_pass_def task_pass_def competency_pass_def Let_def
  by (intro all_distinct_fold all_distinct_init) (auto intro: all_distinct_training_add)

lemma runbookTraining_member:
  assumes "user \<in> set users" "rb \<in> set rbs" "comp_ok user rb"
  shows "\<exists>s. runbookTraining rbs users ts kfs (rb_id rb) = Some s \<and> user_id user \<in> set s \<and> distinct s"
proof -
  have "training_init rbs (rb_id rb) \<noteq> None" using assms(2) training_init_dom [of rbs "rb_id rb"] by blast
  from competency_pass_member [of user users rb rbs "training_init rbs", OF assms(1) assms(2) assms(3) this]
  obtain s where s: "competency_pass users rbs (training_init rbs) (rb_id rb) = Some s" "user_id user \<in> set s"
    by blast
  have "grows (competency_pass users rbs (training_init rbs)) (runbookTraining rbs users ts kfs)"
    unfolding runbookTraining_def by (rule grows_trans [OF grows_task_pass grows_fragment_pass])
  with s obtain s' where s': "runbookTraining rbs users ts kfs (rb_id rb) = Some s'" "set s \<subseteq> set s'"
    unfolding grows_def by blast
  moreover have "distinct s'" using all_distinct_runbookTraining s'(1) unfolding all_distinct_def by blast
  ultimately show ?thesis using s(2) by auto
qed

subsection \<open>The competency tag \<open>all\<close>\<close>

text \<open>
  Claim C9.  When the evidence map is built, a user whose competency list holds the tag
  \<open>all\<close> is in the set of every runbook of the catalog, whatever the runbook's category,
  and so is a user whose list holds the runbook's own category.  The set has no repetition,
  so the user is counted once in the runbook's number of trained users.
\<close>

theorem all_tag_verifies_everywhere:
  assumes "user \<in> set users" and "competencies user = Some comps" and "rb \<in> set runbooks"
    and "''all'' \<in> set comps \<or> category_key (category rb) \<in> set comps"
  shows "\<exists>s. runbookTraining runbooks users completedTasks knowledgeFragments (rb_id rb) = Some s
           \<and> user_id user \<in> set s \<and> distinct s
           \<and> 1 \<le> trainedCount (runbookTraining runbooks users completedTasks knowledgeFragments) rb"
proof -
  have "comp_ok user rb" using assms(2,4) by (auto simp: comp_ok_def or_empty_def)
  from runbookTraining_member [OF assms(1) assms(3) this, of completedTasks knowledgeFragments]
  obtain s where s: "runbookTraining runbooks users completedTasks knowledgeFragments (rb_id rb) = Some s"
    "user_id user \<in> set s" "distinct s" by blast
  then have "1 \<le> length s" by (cases s) auto
  with s show ?thesis by (simp add: trainedCount_def)
qed

lemma shop_crew_rb7:
  "runbookTraining shop_runbooks crew crew_tasks crew_fragments ''rb-7'' = Some [''ann'', ''bob'']"
  by (simp add: runbookTraining_def fragment_pass_def task_pass_def competency_pass_def
        training_init_def userCategoryKnowledge_def shop_runbooks_def crew_def crew_tasks_def
        crew_fragments_def training_add_def set_add_def or_empty_def Let_def)

theorem all_tag_verifies_everywhere_witness:
  "runbookTraining shop_runbooks crew crew_tasks crew_fragments ''rb-7'' = Some [''ann'', ''bob'']
   \<and> ''ann'' \<in> set [''ann'', ''bob'']
   \<and> 1 \<le> trainedCount (runbookTraining shop_runbooks crew crew_tasks crew_fragments)
            \<lparr>rb_id = ''rb-7'', category = Vendor_relations, title = ''Reorder steel''\<rparr>"
proof -
  let ?ann = "\<lparr>user_id = ''ann'', competencies = Some [''all'']\<rparr>"
  let ?rb = "\<lparr>rb_id = ''rb-7'', category = Vendor_relations, title = ''Reorder steel''\<rparr>"
  have h1: "?ann \<in> set crew" by (simp add: crew_def)
  have h2: "competencies ?ann = Some [''all'']" by simp
  have h3: "?rb \<in> set shop_runbooks" by (simp add: shop_runbooks_def)
  have h4: "''all'' \<in> set [''all''] \<or> category_key (category ?rb) \<in> set [''all'']" by simp
  from all_tag_verifies_everywhere [of ?ann crew "[''all'']" ?rb shop_runbooks crew_tasks crew_fragments,
      OF h1 h2 h3 h4]
  have "1 \<le> trainedCount (runbookTraining shop_runbooks crew crew_tasks crew_fragments) ?rb"
    by blast
  then show ?thesis by (simp add: shop_crew_rb7)
qed

section \<open>The two handlers of the route\<close>

subsection \<open>The bus factor\<close>

text \<open>
  In the \<open>POST\<close> handler, \<open>busFactor\<close> is the smallest number of trained users over
  all runbooks when every category has a runbook, and 0 as soon as a category has no runbook
  or a runbook has no trained user.
\<close>

lemma busFactor_minimum:
  "((\<forall>c \<in> set categories. catRunbooks rbs c \<noteq> []) \<and> (\<forall>rb \<in> set rbs. 1 \<le> trainedCount tr rb)
      \<longrightarrow> an_busFactor (computeBusFactor rbs tr) = Min (trainedCount tr ` set rbs))
   \<and> ((\<exists>c \<in> set categories. catRunbooks rbs c = []) \<or> (\<exists>rb \<in> set rbs. trainedCount tr rb = 0)
      \<longrightarrow> an_busFactor (computeBusFactor rbs tr) = 0)"
proof (intro conjI impI)
  assume "(\<forall>c \<in> set categories. catRunbooks rbs c \<noteq> []) \<and> (\<forall>rb \<in> set rbs. 1 \<le> trainedCount tr rb)"
  then have "\<forall>c. catRunbooks rbs c \<noteq> []" by (simp add: set_categories)
  then show "an_busFactor (computeBusFactor rbs tr) = Min (trainedCount tr ` set rbs)"
    by (rule busFactor_is_Min)
next
  assume "(\<exists>c \<in> set categories. catRunbooks rbs c = []) \<or> (\<exists>rb \<in> set rbs. trainedCount tr rb = 0)"
  then show "an_busFactor (computeBusFactor rbs tr) = 0"
  proof
    assume "\<exists>c \<in> set categories. catRunbooks rbs c = []"
    then show ?thesis using busFactor_empty_category by blast
  next
    assume "\<exists>rb \<in> set rbs. trainedCount tr rb = 0"
    then obtain rb where "rb \<in> set rbs" "trainedCount tr rb = 0" by blast
    with busFactor_le [of rb rbs tr] show ?thesis by simp
  qed
qed

lemma busFactor_minimum_staffed:
  "an_busFactor (computeBusFactor shop_runbooks staffed_training) = 2"
proof -
  have c: "catRunbooks shop_runbooks c \<noteq> []" for c
    by (cases c) (simp_all add: catRunbooks_filter shop_runbooks_def)
  have "an_busFactor (computeBusFactor shop_runbooks staffed_training)
          = Min (trainedCount staffed_training ` set shop_runbooks)"
    using busFactor_minimum [of shop_runbooks staffed_training] c
    by (simp add: shop_runbooks_def trainedCount_def staffed_training_def)
  also have "\<dots> = 2"
    by (simp add: shop_runbooks_def trainedCount_def staffed_training_def)
  finally show ?thesis .
qed

lemma busFactor_minimum_ledger:
  "an_busFactor (computeBusFactor ledger_runbooks ledger_training) = 0"
proof -
  have "catRunbooks ledger_runbooks Operations = []"
    by (simp add: catRunbooks_filter ledger_runbooks_def)
  then show ?thesis using busFactor_minimum [of ledger_runbooks ledger_training]
    by (auto simp: set_categories)
qed

text \<open>In the \<open>GET\<close> handler \<open>busFactor\<close> is 1, 2 or 3, whatever the draw.\<close>

lemma GET_busFactor_range:
  "0 \<le> r \<Longrightarrow> r < 1 \<Longrightarrow> GET_busFactor r \<in> {1, 2, 3}"
proof -
  assume "0 \<le> r" "r < 1"
  then have "0 \<le> \<lfloor>r * 3\<rfloor>" "\<lfloor>r * 3\<rfloor> < 3" by (simp_all add: floor_less_iff)
  then have "\<lfloor>r * 3\<rfloor> = 0 \<or> \<lfloor>r * 3\<rfloor> = 1 \<or> \<lfloor>r * 3\<rfloor> = 2" by linarith
  then show ?thesis unfolding GET_busFactor_def by auto
qed

text \<open>
  Claim C1 (the bus factor is the smallest number of verified people over all procedures, and
  0 when a category has no procedure or a procedure has nobody verified).  The \<open>POST\<close>
  handler computes it so (lemma \<open>busFactor_minimum\<close>).  The \<open>GET\<close> handler of
  \<open>route.ts\<close> does not read the procedures: its \<open>busFactor\<close> is
  \<open>Math.floor(Math.random() * 3) + 1\<close>, which is 1, 2 and 3 at the draws 0, 0.5 and 0.875,
  and never 0.
\<close>

theorem GET_busFactor_values:
  "GET_busFactor 0 = 1 \<and> GET_busFactor (1 / 2) = 2 \<and> GET_busFactor (7 / 8) = 3"
  by (simp add: GET_busFactor_def floor_eq_iff)

subsection \<open>Determinism\<close>

text \<open>
  In the \<open>POST\<close> handler the analysis depends on the evidence only through the sets of
  trained users, not through the order in which they were inserted, and the response
  depends on the drawn \<open>analysisId\<close> only in the field of that name.
\<close>

lemma same_sets_count: "same_sets tr tr' \<Longrightarrow> trainedCount tr rb = trainedCount tr' rb"
proof -
  assume a: "same_sets tr tr'"
  then have s: "map_option set (tr (rb_id rb)) = map_option set (tr' (rb_id rb))"
    and d: "distinct (or_empty (tr (rb_id rb)))" "distinct (or_empty (tr' (rb_id rb)))"
    by (simp_all add: same_sets_def)
  show ?thesis
  proof (cases "tr (rb_id rb)")
    case None
    with s show ?thesis by (simp add: trainedCount_def)
  next
    case (Some xs)
    with s obtain ys where ys: "tr' (rb_id rb) = Some ys" "set xs = set ys"
      by (cases "tr' (rb_id rb)") auto
    with d Some have "length xs = length ys"
      by (metis distinct_card or_empty_def option.simps(5))
    with Some ys show ?thesis by (simp add: trainedCount_def)
  qed
qed

lemma same_sets_first:
  "same_sets tr tr' \<Longrightarrow> trainedCount tr rb = 1 \<Longrightarrow> first_user tr rb = first_user tr' rb"
proof -
  assume a: "same_sets tr tr'" and one: "trainedCount tr rb = 1"
  from one same_sets_count [OF a, of rb] have one': "trainedCount tr' rb = 1" by simp
  from trainedCount_one [OF one] obtain u where u: "tr (rb_id rb) = Some [u]" "first_user tr rb = u" by blast
  from trainedCount_one [OF one'] obtain u' where u': "tr' (rb_id rb) = Some [u']" "first_user tr' rb = u'" by blast
  from a have "map_option set (tr (rb_id rb)) = map_option set (tr' (rb_id rb))" by (simp add: same_sets_def)
  with u u' show ?thesis by simp
qed

lemma same_sets_gap: "same_sets tr tr' \<Longrightarrow> procedure_gap tr c rb = procedure_gap tr' c rb"
  using same_sets_count [of tr tr' rb] same_sets_first [of tr tr' rb]
  by (simp add: procedure_gap_def)

lemma computeBusFactor_same_sets:
  assumes "same_sets tr tr'"
  shows "computeBusFactor rbs tr = computeBusFactor rbs tr'"
proof -
  have "runbook_step tr c rb = runbook_step tr' c rb" for c rb
    unfolding runbook_step_def same_sets_count [OF assms, of rb] same_sets_gap [OF assms, of c rb]
    by (rule refl)
  then have rs: "runbook_step tr = runbook_step tr'" by (intro ext) simp
  have "category_step rbs tr = category_step rbs tr'"
    by (intro ext) (simp only: category_step_def rs)
  then show ?thesis by (simp add: computeBusFactor_def)
qed

lemma computeBusFactor_same_sets_shop:
  "computeBusFactor shop_runbooks (shop_training(''rb-1'' \<mapsto> [''cy'', ''ann'', ''bob'']))
     = computeBusFactor shop_runbooks shop_training"
  by (rule computeBusFactor_same_sets)
     (auto simp: same_sets_def shop_training_def or_empty_def)

lemma POST_modulo_analysisId:
  "k \<noteq> ''analysisId'' \<Longrightarrow>
     json_get (POST a rbs us ts kfs) k = json_get (POST a' rbs us ts kfs) k"
  by (simp add: POST_def json_get_def Let_def)

text \<open>
  Claim C6 (two invocations on the same snapshot give the same scores, gaps and bus factor).
  The \<open>POST\<close> handler's computation is a function of the snapshot (lemmas
  \<open>computeBusFactor_same_sets\<close> and \<open>POST_modulo_analysisId\<close>).  The \<open>GET\<close>
  handler answers the same request, at the same instant, with \<open>busFactor\<close> 1 when
  \<open>Math.random()\<close> gives 0.125 and with 3 when it gives 0.875.
\<close>

theorem GET_two_draws:
  "json_get (GET ''7d9f0c36-1a2b-4c3d-8e4f-5a6b7c8d9e0f'' (1 / 8) ''2026-01-05T08:00:00.000Z'') ''busFactor''
     = Some (JNumber 1)
   \<and> json_get (GET ''7d9f0c36-1a2b-4c3d-8e4f-5a6b7c8d9e0f'' (7 / 8) ''2026-01-05T08:00:00.000Z'') ''busFactor''
     = Some (JNumber 3)"
  by (simp add: GET_def GET_busFactor_def json_get_def Let_def floor_eq_iff)

subsection \<open>Shape of the response\<close>

text \<open>
  The \<open>POST\<close> handler's response has the keys \<open>analysisId\<close>, \<open>scores\<close>,
  \<open>criticalGaps\<close> and \<open>busFactor\<close>, in this order and no other; \<open>scores\<close> has
  the four category keys, each with a coverage and a risk level among low, high and critical;
  \<open>criticalGaps\<close> is an array of objects with the three text fields; \<open>busFactor\<close> is
  a natural number.
\<close>

lemma risk_key_enum: "risk_key r \<in> {''low'', ''high'', ''critical''}"
  by (cases r) simp_all

lemma POST_shape:
  "\<exists>(sc :: Category \<Rightarrow> Score) (gaps :: Gap list) (n :: nat).
     POST a rbs us ts kfs =
       JObject [(''analysisId'', JString a),
                (''scores'',
                   JObject (map (\<lambda>c. (category_key c,
                                    JObject [(''coverage'', JNumber (coverage (sc c))),
                                             (''riskLevel'', JString (risk_key (riskLevel (sc c))))]))
                              [Operations, Finance, Client_management, Vendor_relations])),
                (''criticalGaps'',
                   JArray (map (\<lambda>g. JObject [(''function'', JString (gap_function g)),
                                              (''singlePointOfFailure'', JString (singlePointOfFailure g)),
                                              (''recommendedAction'', JString (recommendedAction g))])
                              gaps)),
                (''busFactor'', JNumber (of_nat n))]"
proof -
  let ?a = "computeBusFactor rbs (runbookTraining rbs us ts kfs)"
  let ?sc = "cat_score rbs (runbookTraining rbs us ts kfs)"
  have eq: "POST a rbs us ts kfs =
       JObject [(''analysisId'', JString a),
                (''scores'',
                   JObject (map (\<lambda>c. (category_key c,
                                    JObject [(''coverage'', JNumber (coverage (?sc c))),
                                             (''riskLevel'', JString (risk_key (riskLevel (?sc c))))]))
                              [Operations, Finance, Client_management, Vendor_relations])),
                (''criticalGaps'',
                   JArray (map (\<lambda>g. JObject [(''function'', JString (gap_function g)),
                                              (''singlePointOfFailure'', JString (singlePointOfFailure g)),
                                              (''recommendedAction'', JString (recommendedAction g))])
                              (an_criticalGaps ?a))),
                (''busFactor'', JNumber (of_nat (an_busFactor ?a)))]"
    unfolding POST_def Let_def engine_scores scores_json_def
    by (simp add: categories_def score_json_def gap_json_def cong: map_cong)
  show ?thesis
    by (rule exI [where x = ?sc], rule exI [where x = "an_criticalGaps ?a"],
        rule exI [where x = "an_busFactor ?a"], rule eq)
qed

text \<open>
  Claim C7 (the result has exactly the keys \<open>analysisId\<close>, \<open>scores\<close>,
  \<open>criticalGaps\<close>, \<open>busFactor\<close>, and a risk level is low, high or critical).  The
  \<open>POST\<close> handler's response is so (lemma \<open>POST_shape\<close>).  The \<open>GET\<close>
  handler's response has the keys \<open>orgId\<close>, \<open>busFactor\<close>, \<open>riskLevel\<close>,
  \<open>criticalPersons\<close>, \<open>recommendations\<close> and \<open>calculatedAt\<close>, and its
  \<open>riskLevel\<close> is \<open>medium\<close> when the draw is 0.875.
\<close>

theorem GET_response_shape:
  "json_keys (GET ''7d9f0c36-1a2b-4c3d-8e4f-5a6b7c8d9e0f'' (7 / 8) ''2026-01-05T08:00:00.000Z'')
     = [''orgId'', ''busFactor'', ''riskLevel'', ''criticalPersons'', ''recommendations'', ''calculatedAt'']
   \<and> json_get (GET ''7d9f0c36-1a2b-4c3d-8e4f-5a6b7c8d9e0f'' (7 / 8) ''2026-01-05T08:00:00.000Z'') ''riskLevel''
     = Some (JString ''medium'')"
  by (simp add: GET_def GET_busFactor_def GET_riskLevel_def json_get_def json_keys_def Let_def
        floor_eq_iff)

end
